theory Spec2Isabelle
  imports Complex_Main "HOL-Library.Char_ord" "HOL-Library.List_Lexorder"
begin

section \<open>The store: tables of \<open>database_manager.py\<close>\<close>

text \<open>
  The three SQLite tables are modelled as lists of rows in rowid order. Column names are
  those of the \<open>CREATE TABLE\<close> statements; the three \<open>id\<close> columns are prefixed with the
  table name. Timestamps are what SQLite stores for a \<open>TIMESTAMP\<close> column filled by
  \<open>CURRENT_TIMESTAMP\<close>: text, compared bytewise. The store is a value: a query is a
  function of it and an insertion returns the new store. That the store may refuse a
  call is said where the monitoring service calls it.
\<close>

record user_row =
  users_id :: int
  username :: string
  email :: string

record url_row =
  urls_id :: int
  url :: string
  created_at :: string
  user_id :: int
  category :: "string option"

record check_row =
  checks_id :: int
  url_id :: int
  timestamp :: string
  response_code :: int
  status :: string
  response_time_ms :: int

record database =
  users :: "user_row list"
  urls :: "url_row list"
  checks :: "check_row list"

subsection \<open>Wall-clock values and their two text renderings\<close>

text \<open>
  Python's \<open>datetime\<close> as a record of its fields. \<open>sqlite_timestamp\<close> is the text SQLite's
  \<open>CURRENT_TIMESTAMP\<close> produces (\<open>YYYY-MM-DD HH:MM:SS\<close>); \<open>isoformat\<close> is Python's
  \<open>datetime.isoformat()\<close> (\<open>YYYY-MM-DDTHH:MM:SS\<close>, followed by \<open>.ffffff\<close> when the
  microsecond field is not zero).
\<close>

record datetime =
  year :: nat
  month :: nat
  day :: nat
  hour :: nat
  minute :: nat
  second :: nat
  microsecond :: nat

definition digit :: "nat \<Rightarrow> char" where
  "digit n = ''0123456789'' ! (n mod 10)"

definition pad2 :: "nat \<Rightarrow> string" where
  "pad2 n = [digit (n div 10), digit n]"

definition pad4 :: "nat \<Rightarrow> string" where
  "pad4 n = [digit (n div 1000), digit (n div 100), digit (n div 10), digit n]"

definition pad6 :: "nat \<Rightarrow> string" where
  "pad6 n = [digit (n div 100000), digit (n div 10000), digit (n div 1000),
             digit (n div 100), digit (n div 10), digit n]"

definition date_text :: "datetime \<Rightarrow> string" where
  "date_text d = pad4 (year d) @ ''-'' @ pad2 (month d) @ ''-'' @ pad2 (day d)"

definition time_text :: "datetime \<Rightarrow> string" where
  "time_text d = pad2 (hour d) @ '':'' @ pad2 (minute d) @ '':'' @ pad2 (second d)"

definition sqlite_timestamp :: "datetime \<Rightarrow> string" where
  "sqlite_timestamp d = date_text d @ '' '' @ time_text d"

definition isoformat :: "datetime \<Rightarrow> string" where
  "isoformat d = date_text d @ ''T'' @ time_text d @
     (if microsecond d = 0 then [] else ''.'' @ pad6 (microsecond d))"

definition is_leap :: "nat \<Rightarrow> bool" where
  "is_leap y \<longleftrightarrow> y mod 4 = 0 \<and> (y mod 100 \<noteq> 0 \<or> y mod 400 = 0)"

definition days_in_month :: "nat \<Rightarrow> nat \<Rightarrow> nat" where
  "days_in_month y m =
     (if m = 2 then (if is_leap y then 29 else 28)
      else if m = 4 \<or> m = 6 \<or> m = 9 \<or> m = 11 then 30 else 31)"

text \<open>
  \<open>d - timedelta(days=1)\<close>: the previous calendar day, same time of day. (Python raises
  OverflowError at 0001-01-01; a clock reading is never there.)
\<close>

definition minus_one_day :: "datetime \<Rightarrow> datetime" where
  "minus_one_day d =
     (if 1 < day d then d\<lparr>day := day d - 1\<rparr>
      else if 1 < month d
        then d\<lparr>month := month d - 1, day := days_in_month (year d) (month d - 1)\<rparr>
      else d\<lparr>year := year d - 1, month := 12, day := 31\<rparr>)"

text \<open>
  Seconds since 0001-01-01 00:00:00, following \<open>datetime.toordinal\<close>
  (\<open>_days_before_year\<close>, \<open>_days_before_month\<close> with its table); used only to say how
  old a record is.
\<close>

definition days_before_year :: "nat \<Rightarrow> nat" where
  "days_before_year y = (y - 1) * 365 + (y - 1) div 4 - (y - 1) div 100 + (y - 1) div 400"

definition days_before_month :: "nat \<Rightarrow> nat \<Rightarrow> nat" where
  "days_before_month y m =
     [0, 31, 59, 90, 120, 151, 181, 212, 243, 273, 304, 334] ! (m - 1)
     + (if 2 < m \<and> is_leap y then 1 else 0)"

definition toordinal :: "datetime \<Rightarrow> nat" where
  "toordinal d = days_before_year (year d) + days_before_month (year d) (month d) + day d"

definition seconds_of :: "datetime \<Rightarrow> int" where
  "seconds_of d = int (toordinal d) * 86400 + int (hour d) * 3600 + int (minute d) * 60
                  + int (second d)"

subsection \<open>Queries\<close>

definition fetchone :: "'a list \<Rightarrow> 'a option" where
  "fetchone rows = (case rows of [] \<Rightarrow> None | r # _ \<Rightarrow> Some r)"

text \<open>Python truthiness of an \<open>Optional[int]\<close> and of an optional string.\<close>

definition truthy_int :: "int option \<Rightarrow> bool" where
  "truthy_int v = (case v of None \<Rightarrow> False | Some n \<Rightarrow> n \<noteq> 0)"

definition truthy_str :: "string option \<Rightarrow> bool" where
  "truthy_str v = (case v of None \<Rightarrow> False | Some s \<Rightarrow> s \<noteq> [])"

text \<open>\<open>ORDER BY timestamp DESC\<close> on a list of check rows.\<close>

definition order_by_timestamp_desc :: "check_row list \<Rightarrow> check_row list" where
  "order_by_timestamp_desc rows = rev (sort_key timestamp rows)"

text \<open>
  Python's \<open>round(x, 2)\<close>. Binary floating point is idealised as exact rational
  arithmetic, and ties go to the even neighbour. The two differ where the exact ratio
  lies half way between two hundredths (23 successes of 160, exactly 14.375): there the
  float product falls just below the tie and the code gives 14.37, this function 14.38.
\<close>

definition round_half_even :: "rat \<Rightarrow> int" where
  "round_half_even x =
     (let f = \<lfloor>x\<rfloor>; r = x - of_int f
      in if r < 1 / 2 then f else if 1 / 2 < r then f + 1
         else if even f then f else f + 1)"

definition py_round2 :: "rat \<Rightarrow> rat" where
  "py_round2 x = of_int (round_half_even (x * 100)) / 100"

text \<open>The dictionary returned by \<open>get_url_status\<close>; the key \<open>category\<close> may be absent.\<close>

record url_status =
  status_url :: string
  uptime_percentage :: rat
  last_checked :: "string option"
  status_category :: "string option"

text \<open>The URL lookup at the head of \<open>get_url_status\<close> (\<open>fetchone\<close> of the first query).\<close>

definition select_url :: "database \<Rightarrow> string \<Rightarrow> int option \<Rightarrow> url_row option" where
  "select_url db u uid =
     (if truthy_int uid
      then fetchone [r \<leftarrow> urls db. url r = u \<and> Some (user_id r) = uid]
      else fetchone [r \<leftarrow> urls db. url r = u])"

text \<open>\<open>SELECT timestamp, ... WHERE url_id = ? ORDER BY timestamp DESC LIMIT 1\<close>.\<close>

definition latest_check :: "database \<Rightarrow> int \<Rightarrow> check_row option" where
  "latest_check db i = fetchone (order_by_timestamp_desc [c \<leftarrow> checks db. url_id c = i])"

text \<open>
  The rows of the aggregate query: \<open>WHERE url_id = ? AND timestamp > ?\<close>, the parameter
  being \<open>yesterday.isoformat()\<close>. Both sides are text, so \<open>>\<close> is the bytewise order.
\<close>

definition window_rows :: "database \<Rightarrow> datetime \<Rightarrow> int \<Rightarrow> check_row list" where
  "window_rows db now i =
     [c \<leftarrow> checks db. url_id c = i \<and> isoformat (minus_one_day now) < timestamp c]"

definition total_checks :: "database \<Rightarrow> datetime \<Rightarrow> int \<Rightarrow> nat" where
  "total_checks db now i = length (window_rows db now i)"

definition successful_checks :: "database \<Rightarrow> datetime \<Rightarrow> int \<Rightarrow> nat" where
  "successful_checks db now i = length [c \<leftarrow> window_rows db now i. status c = ''success'']"

definition uptime_of :: "nat \<Rightarrow> nat \<Rightarrow> rat" where
  "uptime_of successful_n total_n =
     (if 0 < total_n then of_nat successful_n / of_nat total_n * 100 else 0)"

text \<open>
  The part of \<open>get_url_status\<close> after the row of \<open>urls\<close> has been fetched: the latest
  check of any age, the aggregate over the window query, and the returned dictionary.
  \<open>SUM\<close> over no rows is \<open>NULL\<close>, but then \<open>total_checks\<close> is 0 and the sum is not used.
\<close>

definition snapshot :: "database \<Rightarrow> datetime \<Rightarrow> string \<Rightarrow> url_row \<Rightarrow> url_status" where
  "snapshot db now u r =
     \<lparr> status_url = u,
       uptime_percentage =
         py_round2 (uptime_of (successful_checks db now (urls_id r))
                              (total_checks db now (urls_id r))),
       last_checked = map_option timestamp (latest_check db (urls_id r)),
       status_category = (if truthy_str (category r) then category r else None) \<rparr>"

text \<open>
  \<open>DatabaseManager.get_url_status\<close>; \<open>now\<close> is the value of \<open>datetime.now()\<close>. The
  result is \<open>None\<close> when no row of \<open>urls\<close> matches.
\<close>

definition get_url_status ::
  "database \<Rightarrow> datetime \<Rightarrow> string \<Rightarrow> int option \<Rightarrow> url_status option" where
  "get_url_status db now u uid =
     (case select_url db u uid of
        None \<Rightarrow> None
      | Some r \<Rightarrow> Some (snapshot db now u r))"

text \<open>\<open>get_all_urls\<close>, \<open>get_user_urls\<close> (\<open>ORDER BY created_at DESC\<close>), \<open>get_user_info\<close>,
  \<open>get_users_with_urls\<close> (\<open>SELECT DISTINCT\<close> over the join of \<open>users\<close> and \<open>urls\<close>).\<close>

definition get_all_urls :: "database \<Rightarrow> url_row list" where
  "get_all_urls db = urls db"

definition get_user_urls :: "database \<Rightarrow> int \<Rightarrow> url_row list" where
  "get_user_urls db uid = rev (sort_key created_at [r \<leftarrow> urls db. user_id r = uid])"

definition get_user_info :: "database \<Rightarrow> int \<Rightarrow> user_row option" where
  "get_user_info db uid = fetchone [p \<leftarrow> users db. users_id p = uid]"


text \<open>
  \<open>add_check_result\<close>: one row appended to \<open>checks\<close>. The id is the next rowid and the
  timestamp is \<open>CURRENT_TIMESTAMP\<close>, the reading \<open>clock\<close> of the UTC clock.
\<close>

definition next_checks_id :: "check_row list \<Rightarrow> int" where
  "next_checks_id rows = fold max (map checks_id rows) 0 + 1"

definition add_check_result ::
  "datetime \<Rightarrow> database \<Rightarrow> int \<Rightarrow> int \<Rightarrow> string \<Rightarrow> int \<Rightarrow> database" where
  "add_check_result clock db i code st ms =
     db\<lparr>checks := checks db @
        [\<lparr> checks_id = next_checks_id (checks db), url_id = i,
            timestamp = sqlite_timestamp clock, response_code = code, status = st,
            response_time_ms = ms \<rparr>]\<rparr>"

section \<open>The monitoring service: \<open>monitoring_service.py\<close>\<close>

text \<open>
  Exceptions are values. An HTTP exchange either yields a response with its status code
  or raises; \<open>asyncio.TimeoutError\<close> and \<open>aiohttp.ClientError\<close> have handlers of their
  own in \<open>check_single_url\<close>, everything else falls to \<open>except Exception\<close>.
\<close>

datatype py_exception =
  TimeoutError | ClientError | AttributeError | RuntimeError | OperationalError

datatype http_outcome = Response int | Raises py_exception

text \<open>
  The connection resource: the \<open>aiohttp.ClientSession\<close> made by \<open>start_monitoring\<close>
  (\<open>Shared\<close>, with the pooled connector) or the one made inside
  \<open>check_single_url_immediately\<close> (\<open>Temporary\<close>).
\<close>

datatype session_kind = Shared | Temporary

record client_session =
  kind :: session_kind
  closed :: bool

text \<open>
  What the service cannot decide itself: the answer of the network to a GET sent over an
  open session, the measured latency, the two clocks, the SMTP server, an exception
  raised while a user's summary is built, whether \<open>stop_monitoring\<close> runs while the
  scheduler sleeps, and the store when it is busy or gone: whether \<open>get_all_urls()\<close> at
  the head of a pass raises, and whether \<open>add_check_result\<close> raises at the first and at
  the second write that the probe of a URL attempts.
\<close>

datatype smtp_outcome =
  Delivered | SMTPAuthenticationError | SMTPRecipientsRefused | SMTPException

record world =
  http_get :: "string \<Rightarrow> http_outcome"
  elapsed_ms :: "string \<Rightarrow> int"
  utc_now :: datetime
  local_now :: datetime
  smtp :: "string \<Rightarrow> smtp_outcome"
  summary_raises :: "int \<Rightarrow> bool"
  stop_called :: bool
  listing_fails :: bool
  first_write_fails :: "string \<Rightarrow> bool"
  second_write_fails :: "string \<Rightarrow> bool"

text \<open>The mail handed to \<open>send_email\<close>: recipient, the data the subject and body are
  rendered from.\<close>

record email_message =
  recipient :: string
  mail_username :: string
  summary_data :: "url_status list"
  total_sites :: nat
  down_sites :: nat

record notification_service_obj =
  email_enabled :: bool

text \<open>
  What the scheduler does, in order: a probing pass, a sleep of so many seconds, a call
  of the periodic broadcast, or the branch that skips it.
\<close>

datatype event = Pass | Sleep nat | Broadcast | BroadcastSkipped

text \<open>
  The \<open>MonitoringService\<close> object together with what it acts on. \<open>requests\<close>, \<open>outbox\<close>
  and \<open>events\<close> record effects: each GET with the session it was sent over, each mail
  accepted by the SMTP server, each scheduler action.
\<close>

record monitor =
  db_manager :: database
  notification_service :: "notification_service_obj option"
  session :: "client_session option"
  running :: bool
  requests :: "(string \<times> client_session option) list"
  outbox :: "email_message list"
  events :: "event list"

text \<open>
  \<open>self.session.get(url, ...)\<close>: on \<open>None\<close> the attribute access raises, a closed
  session raises \<open>RuntimeError('Session is closed')\<close>, an open one asks the network.
\<close>

definition session_get :: "world \<Rightarrow> client_session option \<Rightarrow> string \<Rightarrow> http_outcome" where
  "session_get w s u =
     (case s of
        None \<Rightarrow> Raises AttributeError
      | Some cs \<Rightarrow> if closed cs then Raises RuntimeError else http_get w u)"

definition record_check :: "world \<Rightarrow> monitor \<Rightarrow> url_row \<Rightarrow> int \<Rightarrow> string \<Rightarrow> monitor" where
  "record_check w m url_data code st =
     m\<lparr>db_manager := add_check_result (utc_now w) (db_manager m) (urls_id url_data) code st
                        (elapsed_ms w (url url_data))\<rparr>"

text \<open>
  A call that changes the service either returns, leaving a state (\<open>Inr\<close>), or raises,
  leaving an exception and the state reached when it was raised (\<open>Inl\<close>).
\<close>

type_synonym outcome = "py_exception \<times> monitor + monitor"

text \<open>\<open>self.db_manager.add_check_result(...)\<close> as the probe calls it: the store accepts
  the row, or raises \<open>sqlite3.OperationalError\<close> and nothing is written.\<close>

definition write_check ::
  "world \<Rightarrow> bool \<Rightarrow> monitor \<Rightarrow> url_row \<Rightarrow> int \<Rightarrow> string \<Rightarrow> py_exception + monitor" where
  "write_check w refused m url_data code st =
     (if refused then Inl OperationalError else Inr (record_check w m url_data code st))"

text \<open>
  \<open>MonitoringService.check_single_url\<close>. The write of a response's record stands inside
  the \<open>try\<close>, so an exception of that write is caught by \<open>except Exception\<close>, whose own
  write is the second one. The write of a handler is outside every \<open>try\<close>: its exception
  leaves the probe.
\<close>

definition check_single_url :: "world \<Rightarrow> monitor \<Rightarrow> url_row \<Rightarrow> outcome" where
  "check_single_url w m url_data =
     (let m1 = m\<lparr>requests := requests m @ [(url url_data, session m)]\<rparr>;
          u = url url_data
      in case session_get w (session m) u of
           Response code \<Rightarrow>
             (case write_check w (first_write_fails w u) m1 url_data code
                     (if code < 400 then ''success'' else ''error'') of
                Inr m2 \<Rightarrow> Inr m2
              | Inl e \<Rightarrow>
                  (case write_check w (second_write_fails w u) m1 url_data 0 ''error'' of
                     Inr m2 \<Rightarrow> Inr m2
                   | Inl e2 \<Rightarrow> Inl (e2, m1)))
         | Raises TimeoutError \<Rightarrow>
             (case write_check w (first_write_fails w u) m1 url_data 0 ''error'' of
                Inr m2 \<Rightarrow> Inr m2 | Inl e \<Rightarrow> Inl (e, m1))
         | Raises ClientError \<Rightarrow>
             (case write_check w (first_write_fails w u) m1 url_data 0 ''error'' of
                Inr m2 \<Rightarrow> Inr m2 | Inl e \<Rightarrow> Inl (e, m1))
         | Raises _ \<Rightarrow>
             (case write_check w (first_write_fails w u) m1 url_data 0 ''error'' of
                Inr m2 \<Rightarrow> Inr m2 | Inl e \<Rightarrow> Inl (e, m1)))"

text \<open>
  The tasks of one pass. They interleave at their awaits; here they run in list order,
  each result being \<open>None\<close> or the exception the task raised.
\<close>

fun run_tasks ::
  "world \<Rightarrow> monitor \<Rightarrow> url_row list \<Rightarrow> monitor \<times> py_exception option list" where
  "run_tasks w m [] = (m, [])"
| "run_tasks w m (url_data # rest) =
     (case check_single_url w m url_data of
        Inl (e, m1) \<Rightarrow> (case run_tasks w m1 rest of (m', rs) \<Rightarrow> (m', Some e # rs))
      | Inr m1 \<Rightarrow> (case run_tasks w m1 rest of (m', rs) \<Rightarrow> (m', None # rs)))"

text \<open>\<open>asyncio.gather(*tasks, return_exceptions=...)\<close>: with the flag set, exceptions
  are results; without it the first one is raised.\<close>

definition gather ::
  "bool \<Rightarrow> monitor \<times> py_exception option list \<Rightarrow>
   py_exception \<times> monitor + monitor \<times> py_exception option list" where
  "gather return_exceptions res =
     (if return_exceptions then Inr res
      else case List.map_filter (\<lambda>x. x) (snd res) of
             [] \<Rightarrow> Inr res
           | e # _ \<Rightarrow> Inl (e, fst res))"

text \<open>
  \<open>MonitoringService.check_all_urls\<close>. \<open>get_all_urls()\<close> is called outside any \<open>try\<close>, so
  its exception leaves the pass. The final loop over the results only prints.
\<close>

definition check_all_urls :: "world \<Rightarrow> monitor \<Rightarrow> outcome" where
  "check_all_urls w m =
     (let m0 = m\<lparr>events := events m @ [Pass]\<rparr>
      in if listing_fails w then Inl (OperationalError, m0)
         else
           let url_list = get_all_urls (db_manager m0)
           in if url_list = [] then Inr m0
              else case gather True (run_tasks w m0 url_list) of
                     Inl em \<Rightarrow> Inl em
                   | Inr (m', results) \<Rightarrow> Inr m')"

text \<open>
  \<open>MonitoringService.check_single_url_immediately\<close>. A dictionary of a row and a session
  object are truthy, \<open>None\<close> is not. The lookup itself is taken as answered. When the
  probe raises inside \<open>async with\<close>, the temporary session is closed and the assignment
  of \<open>None\<close> is not reached.
\<close>

definition check_single_url_immediately :: "world \<Rightarrow> monitor \<Rightarrow> string \<Rightarrow> outcome" where
  "check_single_url_immediately w m u =
     (case find (\<lambda>r. url r = u) (get_all_urls (db_manager m)) of
        None \<Rightarrow> Inr m
      | Some url_data \<Rightarrow>
          if session m \<noteq> None then check_single_url w m url_data
          else
            (case check_single_url w (m\<lparr>session := Some \<lparr>kind = Temporary, closed = False\<rparr>\<rparr>)
                    url_data of
               Inl (e, m') \<Rightarrow> Inl (e, m'\<lparr>session := Some \<lparr>kind = Temporary, closed = True\<rparr>\<rparr>)
             | Inr m' \<Rightarrow> Inr (m'\<lparr>session := None\<rparr>)))"

text \<open>\<open>MonitoringService.stop_monitoring\<close>: the session is closed, the attribute keeps it.\<close>

definition stop_monitoring :: "monitor \<Rightarrow> monitor" where
  "stop_monitoring m =
     m\<lparr>running := False,
       session := (case session m of None \<Rightarrow> None | Some cs \<Rightarrow> Some (cs\<lparr>closed := True\<rparr>))\<rparr>"

section \<open>The notification service: \<open>notification_service.py\<close>\<close>

text \<open>\<open>send_email\<close>: every exception of the SMTP exchange is caught and gives \<open>False\<close>.\<close>

definition send_email ::
  "world \<Rightarrow> email_message list \<Rightarrow> email_message \<Rightarrow> bool \<times> email_message list" where
  "send_email w box mail =
     (case smtp w (recipient mail) of
        Delivered \<Rightarrow> (True, box @ [mail])
      | SMTPAuthenticationError \<Rightarrow> (False, box)
      | SMTPRecipientsRefused \<Rightarrow> (False, box)
      | SMTPException \<Rightarrow> (False, box))"

text \<open>The loop of \<open>send_user_uptime_summary\<close> over the user's URLs, with its two
  accumulators \<open>summary_data\<close> and \<open>down_sites\<close>.\<close>

fun summary_loop ::
  "database \<Rightarrow> datetime \<Rightarrow> int \<Rightarrow> url_row list \<Rightarrow> url_status list \<times> nat \<Rightarrow>
   url_status list \<times> nat" where
  "summary_loop db now uid [] acc = acc"
| "summary_loop db now uid (url_data # rest) (summary, down) =
     (case get_url_status db now (url url_data) (Some uid) of
        None \<Rightarrow> summary_loop db now uid rest (summary, down)
      | Some st \<Rightarrow>
          summary_loop db now uid rest
            (summary @ [st], if uptime_percentage st < 99 then down + 1 else down))"

text \<open>The body of the \<open>try\<close> statement of \<open>send_user_uptime_summary\<close>.\<close>

definition summary_body ::
  "world \<Rightarrow> database \<Rightarrow> email_message list \<Rightarrow> int \<Rightarrow> string \<Rightarrow>
   py_exception + bool \<times> email_message list" where
  "summary_body w db box uid user_email =
     (if summary_raises w uid then Inl OperationalError
      else
        let user_urls = get_user_urls db uid
        in if user_urls = [] then Inr (False, box)
           else
             case summary_loop db (local_now w) uid user_urls ([], 0) of
               (summary, down) \<Rightarrow>
                 Inr (send_email w box
                   \<lparr> recipient = user_email,
                     mail_username = (case get_user_info db uid of
                                        None \<Rightarrow> ''User'' | Some p \<Rightarrow> username p),
                     summary_data = summary,
                     total_sites = length user_urls,
                     down_sites = down \<rparr>))"

text \<open>\<open>NotificationService.send_user_uptime_summary\<close>.\<close>

definition send_user_uptime_summary ::
  "world \<Rightarrow> notification_service_obj \<Rightarrow> database \<Rightarrow> email_message list \<Rightarrow> int \<Rightarrow> string \<Rightarrow>
   py_exception + bool \<times> email_message list" where
  "send_user_uptime_summary w ns db box uid user_email =
     (if \<not> email_enabled ns then Inr (False, box)
      else case summary_body w db box uid user_email of
             Inl e \<Rightarrow> Inr (False, box)
           | Inr res \<Rightarrow> Inr res)"



section \<open>The scheduler: \<open>start_monitoring\<close>\<close>

text \<open>The statements of \<open>start_monitoring\<close> before the first pass.\<close>

definition enter_running :: "monitor \<Rightarrow> monitor" where
  "enter_running m = m\<lparr>running := True, session := Some \<lparr>kind = Shared, closed = False\<rparr>\<rparr>"




section \<open>Notions used to state the properties\<close>

text \<open>The state a call leaves behind, and the exception that left it, if any.\<close>

definition state_of :: "outcome \<Rightarrow> monitor" where
  "state_of res = (case res of Inl (e, m) \<Rightarrow> m | Inr m \<Rightarrow> m)"

definition raised :: "outcome \<Rightarrow> py_exception option" where
  "raised res = (case res of Inl (e, m) \<Rightarrow> Some e | Inr m \<Rightarrow> None)"



text \<open>
  The rows a probe of the target writes, as triples of target id, code and status, when
  the request is sent over the session \<open>s\<close>: the record of the response if the first
  write is accepted, the record of the catch-all handler if only the second is, the
  record of a handler if its write is accepted, and nothing otherwise.
\<close>

definition probe_rows ::
  "world \<Rightarrow> client_session option \<Rightarrow> url_row \<Rightarrow> (int \<times> int \<times> string) list" where
  "probe_rows w s u =
     (case session_get w s (url u) of
        Response code \<Rightarrow>
          if first_write_fails w (url u)
          then (if second_write_fails w (url u) then [] else [(urls_id u, 0, ''error'')])
          else [(urls_id u, code, if code < 400 then ''success'' else ''error'')]
      | Raises e \<Rightarrow>
          if first_write_fails w (url u) then [] else [(urls_id u, 0, ''error'')])"

definition row_triple :: "check_row \<Rightarrow> int \<times> int \<times> string" where
  "row_triple c = (url_id c, response_code c, status c)"


text \<open>Chronological order of wall-clock values to the second, and the field ranges of
  Python's \<open>datetime\<close>.\<close>

definition chron :: "datetime \<Rightarrow> nat list" where
  "chron d = [year d, month d, day d, hour d, minute d, second d]"

definition valid_datetime :: "datetime \<Rightarrow> bool" where
  "valid_datetime d \<longleftrightarrow>
     1 \<le> year d \<and> year d \<le> 9999 \<and> 1 \<le> month d \<and> month d \<le> 12 \<and>
     1 \<le> day d \<and> day d \<le> days_in_month (year d) (month d) \<and>
     hour d < 24 \<and> minute d < 60 \<and> second d < 60 \<and> microsecond d < 1000000"

subsection \<open>A small installation\<close>

text \<open>
  One user with two targets, and a clock reading of half past midnight on 2 January 2024
  (local time and UTC agree). \<open>example.com\<close> answers 200, every other host times out.
\<close>

definition stamp :: "nat \<Rightarrow> nat \<Rightarrow> nat \<Rightarrow> nat \<Rightarrow> nat \<Rightarrow> nat \<Rightarrow> nat \<Rightarrow> datetime" where
  "stamp y mo d h mi s us =
     \<lparr>year = y, month = mo, day = d, hour = h, minute = mi, second = s, microsecond = us\<rparr>"

definition example_now :: datetime where
  "example_now = stamp 2024 1 2 0 30 0 500000"

definition example_urls :: "url_row list" where
  "example_urls =
     [\<lparr>urls_id = 1, url = ''https://example.com/'', created_at = ''2023-12-01 09:00:00'',
        user_id = 1, category = None\<rparr>,
      \<lparr>urls_id = 2, url = ''https://down.test/'', created_at = ''2023-12-02 09:00:00'',
        user_id = 1, category = Some ''lab''\<rparr>]"

definition example_users :: "user_row list" where
  "example_users = [\<lparr>users_id = 1, username = ''ann'', email = ''ann@example.com''\<rparr>]"

definition example_db :: database where
  "example_db = \<lparr>users = example_users, urls = example_urls, checks = []\<rparr>"

definition example_world :: world where
  "example_world =
     \<lparr>http_get = (\<lambda>u. if u = ''https://example.com/'' then Response 200 else Raises TimeoutError),
      elapsed_ms = (\<lambda>u. 120),
      utc_now = example_now,
      local_now = example_now,
      smtp = (\<lambda>a. Delivered),
      summary_raises = (\<lambda>i. False),
      stop_called = False,
      listing_fails = False,
      first_write_fails = (\<lambda>u. False),
      second_write_fails = (\<lambda>u. False)\<rparr>"

definition example_monitor :: monitor where
  "example_monitor =
     \<lparr>db_manager = example_db, notification_service = Some \<lparr>email_enabled = True\<rparr>,
      session = None, running = False, requests = [], outbox = [], events = []\<rparr>"


subsection \<open>The window as the specification words it\<close>

text \<open>
  Reading a stored timestamp back into its fields, and the records of a target whose
  instant lies in the 24 hours before \<open>now\<close>: the trailing window in the words of the
  specification, to be compared with \<open>window_rows\<close>, the query of the source.
\<close>

definition digits_value :: "string \<Rightarrow> nat" where
  "digits_value cs = fold (\<lambda>c n. 10 * n + (of_char c - 48)) cs 0"

definition parse_timestamp :: "string \<Rightarrow> datetime" where
  "parse_timestamp s =
     stamp (digits_value (take 4 s)) (digits_value (take 2 (drop 5 s)))
           (digits_value (take 2 (drop 8 s))) (digits_value (take 2 (drop 11 s)))
           (digits_value (take 2 (drop 14 s))) (digits_value (take 2 (drop 17 s))) 0"

definition spec_window_rows :: "database \<Rightarrow> datetime \<Rightarrow> int \<Rightarrow> check_row list" where
  "spec_window_rows db now i =
     [c \<leftarrow> checks db. url_id c = i \<and>
        seconds_of now - 86400 < seconds_of (parse_timestamp (timestamp c)) \<and>
        seconds_of (parse_timestamp (timestamp c)) \<le> seconds_of now]"

definition spec_uptime_percentage :: "database \<Rightarrow> datetime \<Rightarrow> int \<Rightarrow> rat" where
  "spec_uptime_percentage db now i =
     py_round2 (uptime_of (length [c \<leftarrow> spec_window_rows db now i. status c = ''success''])
                          (length (spec_window_rows db now i)))"

subsection \<open>A history for the first target, and a stopped service\<close>

text \<open>
  Three checks of \<open>https://example.com/\<close>, made 25 hours, 2 hours and 1 hour before
  \<open>example_now\<close>; and the service after \<open>start_monitoring\<close> has set it up and
  \<open>stop_monitoring\<close> has run.
\<close>

definition example_checks :: "check_row list" where
  "example_checks =
     [\<lparr>checks_id = 1, url_id = 1, timestamp = ''2023-12-31 23:30:00'', response_code = 200,
        status = ''success'', response_time_ms = 120\<rparr>,
      \<lparr>checks_id = 2, url_id = 1, timestamp = ''2024-01-01 22:30:00'', response_code = 500,
        status = ''error'', response_time_ms = 80\<rparr>,
      \<lparr>checks_id = 3, url_id = 1, timestamp = ''2024-01-01 23:30:00'', response_code = 200,
        status = ''success'', response_time_ms = 95\<rparr>]"

definition example_history :: database where
  "example_history = example_db\<lparr>checks := example_checks\<rparr>"

definition example_stopped :: monitor where
  "example_stopped = stop_monitoring (enter_running example_monitor)"

text \<open>
  The service as \<open>start_monitoring\<close> sets it up, and a world in which the store is busy
  at the first write of every probe and free again at the second.
\<close>

definition example_running :: monitor where
  "example_running = enter_running example_monitor"

definition example_busy_world :: world where
  "example_busy_world = example_world\<lparr>first_write_fails := (\<lambda>u. True)\<rparr>"

lemmas example_defs =
  example_monitor_def example_world_def example_db_def example_users_def example_urls_def
  example_now_def stamp_def

lemmas fmt_defs = isoformat_def sqlite_timestamp_def date_text_def time_text_def pad2_def
  pad4_def pad6_def digit_def minus_one_day_def days_in_month_def is_leap_def

lemmas secs_defs = seconds_of_def toordinal_def days_before_year_def days_before_month_def
  days_in_month_def is_leap_def

section \<open>Timestamps: text order and chronological order\<close>

lemma div_mod_lex:
  fixes a b k :: nat
  assumes "0 < k"
  shows "(a div k < b div k \<or> a div k = b div k \<and> a mod k < b mod k) \<longleftrightarrow> a < b"
proof -
  have a: "a = k * (a div k) + a mod k" and b: "b = k * (b div k) + b mod k" by simp_all
  show ?thesis
  proof (cases "a div k = b div k")
    case True
    then have "a < b \<longleftrightarrow> a mod k < b mod k"
      using a b by (metis nat_add_left_cancel_less)
    then show ?thesis using True by simp
  next
    case False
    have "a < b \<longleftrightarrow> a div k < b div k"
    proof
      assume "a < b"
      then have "a div k \<le> b div k" by (simp add: div_le_mono)
      then show "a div k < b div k" using False by simp
    next
      assume "a div k < b div k"
      show "a < b"
      proof (rule ccontr)
        assume "\<not> a < b"
        then have "b div k \<le> a div k" by (simp add: div_le_mono)
        then show False using \<open>a div k < b div k\<close> by simp
      qed
    qed
    then show ?thesis using False by simp
  qed
qed

lemma div_mod_eq_iff:
  fixes a b k :: nat
  shows "(a div k = b div k \<and> a mod k = b mod k) \<longleftrightarrow> a = b"
  by (metis div_mult_mod_eq)

lemma digit_code: "n < 10 \<Longrightarrow> of_char (digit n) = (48 + n :: nat)"
proof -
  assume "n < 10"
  then have "n = 0 \<or> n = 1 \<or> n = 2 \<or> n = 3 \<or> n = 4 \<or> n = 5 \<or> n = 6 \<or> n = 7 \<or> n = 8 \<or> n = 9"
    by arith
  then show ?thesis by (elim disjE) (simp_all add: digit_def)
qed

lemma digit_mod: "digit n = digit (n mod 10)"
  by (simp add: digit_def)

lemma digit_less_iff: "digit a < digit b \<longleftrightarrow> a mod 10 < b mod 10"
proof -
  have "digit (a mod 10) < digit (b mod 10) \<longleftrightarrow> a mod 10 < b mod 10"
    by (simp add: less_char_def digit_code)
  then show ?thesis using digit_mod [of a] digit_mod [of b] by simp
qed

lemma digit_eq_iff: "digit a = digit b \<longleftrightarrow> a mod 10 = b mod 10"
proof
  assume "digit a = digit b"
  then have "digit (a mod 10) = digit (b mod 10)" using digit_mod [of a] digit_mod [of b] by simp
  then have "(of_char (digit (a mod 10)) :: nat) = of_char (digit (b mod 10))" by simp
  then show "a mod 10 = b mod 10" by (simp add: digit_code)
next
  assume "a mod 10 = b mod 10"
  then show "digit a = digit b" by (simp add: digit_def)
qed

lemma mod_100_digits:
  fixes a :: nat
  shows "a mod 100 div 10 = a div 10 mod 10" "a mod 100 mod 10 = a mod 10"
proof -
  have "a mod 100 = 10 * (a div 10 mod 10) + a mod 10"
    using mod_mult2_eq [of a 10 10] by simp
  then show "a mod 100 div 10 = a div 10 mod 10" by simp
  show "a mod 100 mod 10 = a mod 10" by (simp add: mod_mod_cancel)
qed

lemma pad2_less_iff: "pad2 a < pad2 b \<longleftrightarrow> a mod 100 < b mod 100"
proof -
  have "pad2 a < pad2 b \<longleftrightarrow>
        a div 10 mod 10 < b div 10 mod 10 \<or>
        a div 10 mod 10 = b div 10 mod 10 \<and> a mod 10 < b mod 10"
    by (simp add: pad2_def digit_less_iff digit_eq_iff)
  also have "\<dots> \<longleftrightarrow> a mod 100 < b mod 100"
    using div_mod_lex [of 10 "a mod 100" "b mod 100"] by (simp add: mod_100_digits)
  finally show ?thesis .
qed

lemma pad2_eq_iff: "pad2 a = pad2 b \<longleftrightarrow> a mod 100 = b mod 100"
proof -
  have "pad2 a = pad2 b \<longleftrightarrow> a div 10 mod 10 = b div 10 mod 10 \<and> a mod 10 = b mod 10"
    by (simp add: pad2_def digit_eq_iff)
  also have "\<dots> \<longleftrightarrow> a mod 100 = b mod 100"
    using div_mod_eq_iff [of "a mod 100" 10 "b mod 100"] by (simp add: mod_100_digits)
  finally show ?thesis .
qed

lemma pad4_split: "pad4 n = pad2 (n div 100) @ pad2 n"
proof -
  have "n div 1000 = n div 100 div 10" using div_mult2_eq [of n 100 10] by simp
  then show ?thesis by (simp add: pad4_def pad2_def)
qed

lemma append_less_iff:
  fixes xs :: "'a::linorder list"
  shows "length xs = length xs' \<Longrightarrow>
   (xs @ ys < xs' @ ys') \<longleftrightarrow> (xs < xs' \<or> xs = xs' \<and> ys < ys')"
  by (induction xs xs' rule: list_induct2) auto

lemma length_pad2 [simp]: "length (pad2 n) = 2"
  by (simp add: pad2_def)

lemma length_pad4 [simp]: "length (pad4 n) = 4"
  by (simp add: pad4_def)

lemma pad4_less_iff: "a < 10000 \<Longrightarrow> b < 10000 \<Longrightarrow> pad4 a < pad4 b \<longleftrightarrow> a < b"
proof -
  assume ab: "a < 10000" "b < 10000"
  then have d: "a div 100 < 100" "b div 100 < 100" by simp_all
  have "pad4 a < pad4 b \<longleftrightarrow>
     a div 100 < b div 100 \<or> a div 100 = b div 100 \<and> a mod 100 < b mod 100"
    using d by (simp add: pad4_split append_less_iff pad2_less_iff pad2_eq_iff)
  also have "\<dots> \<longleftrightarrow> a < b" by (rule div_mod_lex) simp
  finally show ?thesis .
qed

lemma pad4_eq_iff: "a < 10000 \<Longrightarrow> b < 10000 \<Longrightarrow> pad4 a = pad4 b \<longleftrightarrow> a = b"
proof -
  assume ab: "a < 10000" "b < 10000"
  then have d: "a div 100 < 100" "b div 100 < 100" by simp_all
  have "pad4 a = pad4 b \<longleftrightarrow> a div 100 = b div 100 \<and> a mod 100 = b mod 100"
    using d by (simp add: pad4_split pad2_eq_iff)
  also have "\<dots> \<longleftrightarrow> a = b" by (rule div_mod_eq_iff)
  finally show ?thesis .
qed

lemma valid_datetime_bounds:
  "valid_datetime d \<Longrightarrow>
     year d < 10000 \<and> month d < 100 \<and> day d < 100 \<and> hour d < 100 \<and> minute d < 100 \<and> second d < 100"
  by (auto simp: valid_datetime_def days_in_month_def split: if_splits)

lemma time_text_less_iff:
  assumes "hour a < 100" "minute a < 100" "second a < 100"
    "hour b < 100" "minute b < 100" "second b < 100"
  shows "time_text a < time_text b \<longleftrightarrow>
         [hour a, minute a, second a] < [hour b, minute b, second b]"
  using assms by (simp add: time_text_def append_less_iff pad2_less_iff pad2_eq_iff)

lemma time_text_eq_iff:
  assumes "hour a < 100" "minute a < 100" "second a < 100"
    "hour b < 100" "minute b < 100" "second b < 100"
  shows "time_text a = time_text b \<longleftrightarrow>
         [hour a, minute a, second a] = [hour b, minute b, second b]"
  using assms by (simp add: time_text_def pad2_eq_iff)

lemma date_text_less_iff:
  assumes "year a < 10000" "month a < 100" "day a < 100"
    "year b < 10000" "month b < 100" "day b < 100"
  shows "date_text a < date_text b \<longleftrightarrow>
         [year a, month a, day a] < [year b, month b, day b]"
  using assms
  by (simp add: date_text_def append_less_iff pad2_less_iff pad2_eq_iff pad4_less_iff pad4_eq_iff)

lemma date_text_eq_iff:
  assumes "year a < 10000" "month a < 100" "day a < 100"
    "year b < 10000" "month b < 100" "day b < 100"
  shows "date_text a = date_text b \<longleftrightarrow>
         [year a, month a, day a] = [year b, month b, day b]"
  using assms by (simp add: date_text_def pad2_eq_iff pad4_eq_iff)

lemma length_date_text [simp]: "length (date_text d) = 10"
  by (simp add: date_text_def)

lemma sqlite_timestamp_less_iff:
  assumes "valid_datetime a" "valid_datetime b"
  shows "sqlite_timestamp a < sqlite_timestamp b \<longleftrightarrow> chron a < chron b"
proof -
  note ba = valid_datetime_bounds [OF assms(1)] and bb = valid_datetime_bounds [OF assms(2)]
  have "sqlite_timestamp a < sqlite_timestamp b \<longleftrightarrow>
        date_text a < date_text b \<or> date_text a = date_text b \<and> time_text a < time_text b"
    by (simp add: sqlite_timestamp_def append_less_iff)
  also have "\<dots> \<longleftrightarrow> chron a < chron b"
    using ba bb
    by (simp add: date_text_less_iff date_text_eq_iff time_text_less_iff chron_def) blast
  finally show ?thesis .
qed

lemma sqlite_timestamp_eq_iff:
  assumes "valid_datetime a" "valid_datetime b"
  shows "sqlite_timestamp a = sqlite_timestamp b \<longleftrightarrow> chron a = chron b"
proof -
  note ba = valid_datetime_bounds [OF assms(1)] and bb = valid_datetime_bounds [OF assms(2)]
  show ?thesis
    using ba bb
    by (simp add: sqlite_timestamp_def date_text_eq_iff time_text_eq_iff chron_def)
qed

lemma sqlite_timestamp_le_iff:
  assumes "valid_datetime a" "valid_datetime b"
  shows "sqlite_timestamp a \<le> sqlite_timestamp b \<longleftrightarrow> chron a \<le> chron b"
  using sqlite_timestamp_less_iff [OF assms] sqlite_timestamp_eq_iff [OF assms]
  by (simp add: le_less)

section \<open>Rounding and the uptime ratio\<close>

lemma round_half_even_cases:
  "round_half_even x = \<lfloor>x\<rfloor> \<or> round_half_even x = \<lfloor>x\<rfloor> + 1"
  by (simp add: round_half_even_def Let_def)

lemma round_half_even_near: "\<bar>of_int (round_half_even x) - x\<bar> \<le> 1 / 2"
proof -
  have "of_int \<lfloor>x\<rfloor> \<le> x" "x < of_int \<lfloor>x\<rfloor> + 1" by linarith+
  then show ?thesis
    by (auto simp: round_half_even_def Let_def abs_le_iff)
qed

lemma round_half_even_of_int [simp]: "round_half_even (of_int n) = n"
  by (simp add: round_half_even_def)

lemma round_half_even_mono_int_le: "x \<le> of_int n \<Longrightarrow> round_half_even x \<le> n"
proof -
  assume a: "x \<le> of_int n"
  show ?thesis
  proof (cases "x = of_int n")
    case True then show ?thesis by simp
  next
    case False
    with a have "x < of_int n" by simp
    then have "\<lfloor>x\<rfloor> < n" by (simp add: floor_less_iff)
    with round_half_even_cases [of x] show ?thesis by auto
  qed
qed

lemma round_half_even_nonneg: "0 \<le> x \<Longrightarrow> 0 \<le> round_half_even x"
proof -
  assume "0 \<le> x"
  then have "0 \<le> \<lfloor>x\<rfloor>" by simp
  with round_half_even_cases [of x] show ?thesis by auto
qed

lemma py_round2_bounds: "0 \<le> x \<Longrightarrow> x \<le> 100 \<Longrightarrow> 0 \<le> py_round2 x \<and> py_round2 x \<le> 100"
proof -
  assume a: "0 \<le> x" "x \<le> 100"
  have "0 \<le> round_half_even (x * 100)" using a by (intro round_half_even_nonneg) simp
  moreover have "round_half_even (x * 100) \<le> 10000"
    using a by (intro round_half_even_mono_int_le) simp
  ultimately show ?thesis by (simp add: py_round2_def)
qed

lemma py_round2_near: "\<bar>py_round2 x - x\<bar> \<le> 1 / 200"
proof -
  have e: "py_round2 x - x = (of_int (round_half_even (x * 100)) - x * 100) / 100"
    by (simp add: py_round2_def field_simps)
  have "\<bar>(of_int (round_half_even (x * 100)) - x * 100) / 100\<bar>
        = \<bar>of_int (round_half_even (x * 100)) - x * 100\<bar> / 100"
    by (simp only: abs_divide abs_numeral)
  also have "\<dots> \<le> (1 / 2) / 100"
    using round_half_even_near [of "x * 100"] by (intro divide_right_mono) auto
  finally show ?thesis unfolding e by simp
qed

lemma py_round2_hundredths: "py_round2 x * 100 = of_int (round_half_even (x * 100))"
  by (simp add: py_round2_def)

lemma uptime_of_bounds: "s \<le> t \<Longrightarrow> 0 \<le> uptime_of s t \<and> uptime_of s t \<le> 100"
  by (auto simp: uptime_of_def field_simps)

lemma successful_le_total: "successful_checks db now i \<le> total_checks db now i"
  by (simp add: successful_checks_def total_checks_def)

lemma py_round2_0 [simp]: "py_round2 0 = 0"
  by (simp add: py_round2_def round_half_even_def)

lemma py_round2_50: "py_round2 (uptime_of 1 2) = 50"
  by (simp add: py_round2_def round_half_even_def uptime_of_def)

section \<open>The uptime snapshot\<close>

lemma example_yesterday:
  "isoformat (minus_one_day example_now) = ''2024-01-01T00:30:00.500000''"
  by (simp add: example_now_def stamp_def fmt_defs)

lemma example_parse:
  "parse_timestamp ''2023-12-31 23:30:00'' = stamp 2023 12 31 23 30 0 0"
  "parse_timestamp ''2024-01-01 22:30:00'' = stamp 2024 1 1 22 30 0 0"
  "parse_timestamp ''2024-01-01 23:30:00'' = stamp 2024 1 1 23 30 0 0"
  by (simp_all add: parse_timestamp_def digits_value_def)

lemma example_render:
  "sqlite_timestamp (stamp 2023 12 31 23 30 0 0) = ''2023-12-31 23:30:00''"
  "sqlite_timestamp (stamp 2024 1 1 22 30 0 0) = ''2024-01-01 22:30:00''"
  "sqlite_timestamp (stamp 2024 1 1 23 30 0 0) = ''2024-01-01 23:30:00''"
  by (simp_all add: stamp_def fmt_defs)

lemma example_seconds:
  "seconds_of example_now = 63839838600"
  "seconds_of (parse_timestamp ''2023-12-31 23:30:00'') = 63839748600"
  "seconds_of (parse_timestamp ''2024-01-01 22:30:00'') = 63839831400"
  "seconds_of (parse_timestamp ''2024-01-01 23:30:00'') = 63839835000"
  by (simp_all add: example_parse example_now_def stamp_def secs_defs)

lemma example_window_rows: "window_rows example_history example_now 1 = []"
  by (simp add: window_rows_def example_yesterday example_history_def example_checks_def)

lemma example_spec_window_rows:
  "spec_window_rows example_history example_now 1 = drop 1 example_checks"
  by (simp add: spec_window_rows_def example_history_def example_checks_def example_seconds)

lemma example_spec_uptime: "spec_uptime_percentage example_history example_now 1 = 50"
  by (simp add: spec_uptime_percentage_def example_spec_window_rows example_checks_def
      py_round2_def round_half_even_def uptime_of_def)

lemma example_select_url:
  "select_url example_history ''https://example.com/'' (Some 1) = Some (hd example_urls)"
  by (simp add: select_url_def truthy_int_def fetchone_def example_history_def example_db_def
      example_urls_def)

lemma example_latest_check: "latest_check example_history 1 = Some (last example_checks)"
  by (simp add: latest_check_def order_by_timestamp_desc_def fetchone_def example_history_def
      example_checks_def)

lemma example_status:
  "get_url_status example_history example_now ''https://example.com/'' (Some 1) =
     Some \<lparr>status_url = ''https://example.com/'', uptime_percentage = 0,
           last_checked = Some ''2024-01-01 23:30:00'', status_category = None\<rparr>"
proof -
  have r: "urls_id (hd example_urls) = 1" "category (hd example_urls) = None"
    by (simp_all add: example_urls_def)
  have t: "timestamp (last example_checks) = ''2024-01-01 23:30:00''"
    by (simp add: example_checks_def)
  show ?thesis
    by (simp add: get_url_status_def example_select_url snapshot_def r t successful_checks_def
        total_checks_def example_window_rows uptime_of_def example_latest_check truthy_str_def)
qed

lemma fetchone_rev: "fetchone (rev xs) = (if xs = [] then None else Some (last xs))"
  by (cases xs rule: rev_cases) (simp_all add: fetchone_def)

lemma sorted_le_last: "sorted xs \<Longrightarrow> x \<in> set xs \<Longrightarrow> x \<le> last xs"
  for xs :: "'a::linorder list"
proof (induction xs rule: rev_induct)
  case Nil
  then show ?case by simp
next
  case (snoc y ys)
  then show ?case by (auto simp: sorted_append)
qed

lemma latest_timestamp:
  assumes "rows \<noteq> []"
  shows "timestamp (last (sort_key timestamp rows)) = Max (timestamp ` set rows)"
proof -
  let ?s = "sort_key timestamp rows"
  have ne: "?s \<noteq> []" using assms by (metis length_sort length_0_conv)
  have srt: "sorted (map timestamp ?s)" by simp
  have l: "last (map timestamp ?s) = timestamp (last ?s)" using ne by (simp add: last_map)
  have "Max (timestamp ` set rows) = timestamp (last ?s)"
  proof (rule Max_eqI)
    show "finite (timestamp ` set rows)" by simp
    show "timestamp (last ?s) \<in> timestamp ` set rows"
      using ne last_in_set [of ?s] by (metis image_eqI set_sort)
    fix y assume "y \<in> timestamp ` set rows"
    then have "y \<in> set (map timestamp ?s)" by simp
    then have "y \<le> last (map timestamp ?s)" using srt by (rule sorted_le_last [rotated])
    then show "y \<le> timestamp (last ?s)" using l by simp
  qed
  then show ?thesis by simp
qed

lemma last_checked_Max:
  "last_checked (snapshot db now u r) =
     (if [c \<leftarrow> checks db. url_id c = urls_id r] = [] then None
      else Some (Max (timestamp ` {c \<in> set (checks db). url_id c = urls_id r})))"
proof (cases "[c \<leftarrow> checks db. url_id c = urls_id r] = []")
  case True
  then show ?thesis
    by (simp add: snapshot_def latest_check_def order_by_timestamp_desc_def fetchone_def)
next
  case False
  then have "sort_key timestamp [c \<leftarrow> checks db. url_id c = urls_id r] \<noteq> []"
    by (metis length_sort length_0_conv)
  then show ?thesis
    using False latest_timestamp [OF False]
    by (simp add: snapshot_def latest_check_def order_by_timestamp_desc_def fetchone_rev)
qed

text \<open>
  Claim C3. For the target \<open>r\<close> that the lookup finds, with every stored timestamp of its
  checks the \<open>CURRENT_TIMESTAMP\<close> rendering of a valid instant \<open>tm c\<close>: \<open>last_checked\<close> is
  \<open>None\<close> exactly when the target has no check at all, and otherwise it is the timestamp
  of a check of the target than which none of its checks is later. Neither \<open>now\<close> nor the
  window takes part.
\<close>

theorem last_checked_is_latest_record:
  assumes "select_url db u uid = Some r"
    and "\<forall>c \<in> set (checks db). url_id c = urls_id r \<longrightarrow>
           valid_datetime (tm c) \<and> timestamp c = sqlite_timestamp (tm c)"
  shows "\<exists>st. get_url_status db now u uid = Some st \<and>
     (last_checked st = None \<longleftrightarrow> \<not> (\<exists>c \<in> set (checks db). url_id c = urls_id r)) \<and>
     (\<forall>t. last_checked st = Some t \<longrightarrow>
        (\<exists>c \<in> set (checks db). url_id c = urls_id r \<and> timestamp c = t \<and>
           (\<forall>c' \<in> set (checks db). url_id c' = urls_id r \<longrightarrow> chron (tm c') \<le> chron (tm c))))"
proof -
  let ?T = "timestamp ` {c \<in> set (checks db). url_id c = urls_id r}"
  have st: "get_url_status db now u uid = Some (snapshot db now u r)"
    using assms(1) by (simp add: get_url_status_def)
  have none: "last_checked (snapshot db now u r) = None \<longleftrightarrow>
              \<not> (\<exists>c \<in> set (checks db). url_id c = urls_id r)"
    by (auto simp: last_checked_Max filter_empty_conv)
  have some: "\<exists>c \<in> set (checks db). url_id c = urls_id r \<and> timestamp c = t \<and>
           (\<forall>c' \<in> set (checks db). url_id c' = urls_id r \<longrightarrow> chron (tm c') \<le> chron (tm c))"
    if t: "last_checked (snapshot db now u r) = Some t" for t
  proof -
    from t have ne: "[c \<leftarrow> checks db. url_id c = urls_id r] \<noteq> []" and tmax: "t = Max ?T"
      by (auto simp: last_checked_Max split: if_splits)
    have fin: "finite ?T" by simp
    have "?T \<noteq> {}" using ne by (auto simp: filter_empty_conv)
    then have "Max ?T \<in> ?T" using fin by (rule Max_in [rotated])
    then obtain c where c: "c \<in> set (checks db)" "url_id c = urls_id r" "timestamp c = t"
      using tmax by auto
    have "chron (tm c') \<le> chron (tm c)"
      if c': "c' \<in> set (checks db)" "url_id c' = urls_id r" for c'
    proof -
      have "timestamp c' \<in> ?T" using c' by auto
      then have "timestamp c' \<le> t" using fin tmax by simp
      then have "sqlite_timestamp (tm c') \<le> sqlite_timestamp (tm c)"
        using assms(2) c c' by simp
      then show ?thesis using assms(2) c c' by (simp add: sqlite_timestamp_le_iff)
    qed
    then show ?thesis using c by blast
  qed
  show ?thesis using st none some by simp
qed

theorem last_checked_is_latest_record_witness:
  "select_url example_history ''https://example.com/'' (Some 1) = Some (hd example_urls) \<and>
   list_all (\<lambda>c. valid_datetime (parse_timestamp (timestamp c)) \<and>
                  timestamp c = sqlite_timestamp (parse_timestamp (timestamp c)))
     (checks example_history) \<and>
   (\<exists>st. get_url_status example_history example_now ''https://example.com/'' (Some 1) = Some st \<and>
     (last_checked st = None \<longleftrightarrow>
        \<not> (\<exists>c \<in> set (checks example_history). url_id c = urls_id (hd example_urls))) \<and>
     (\<forall>t. last_checked st = Some t \<longrightarrow>
        (\<exists>c \<in> set (checks example_history). url_id c = urls_id (hd example_urls) \<and>
           timestamp c = t \<and>
           (\<forall>c' \<in> set (checks example_history). url_id c' = urls_id (hd example_urls) \<longrightarrow>
              chron (parse_timestamp (timestamp c')) \<le> chron (parse_timestamp (timestamp c))))))"
proof -
  have h: "list_all (\<lambda>c. valid_datetime (parse_timestamp (timestamp c)) \<and>
                  timestamp c = sqlite_timestamp (parse_timestamp (timestamp c)))
     (checks example_history)"
    by (simp add: example_history_def example_checks_def parse_timestamp_def digits_value_def
        stamp_def valid_datetime_def fmt_defs)
  then have h2: "\<forall>c \<in> set (checks example_history). url_id c = urls_id (hd example_urls) \<longrightarrow>
      valid_datetime (parse_timestamp (timestamp c)) \<and>
      timestamp c = sqlite_timestamp (parse_timestamp (timestamp c))"
    by (simp add: list_all_iff)
  from last_checked_is_latest_record [OF example_select_url h2, of example_now]
    example_select_url h
  show ?thesis by blast
qed

lemma isoformat_less_sqlite_timestamp:
  "isoformat y < sqlite_timestamp d \<longleftrightarrow> date_text y < date_text d"
  by (simp add: isoformat_def sqlite_timestamp_def append_less_iff)

lemma window_test_compares_dates:
  assumes "valid_datetime y" "valid_datetime d"
  shows "isoformat y < sqlite_timestamp d \<longleftrightarrow>
         [year y, month y, day y] < [year d, month d, day d]"
  using valid_datetime_bounds [OF assms(1)] valid_datetime_bounds [OF assms(2)]
  by (simp only: isoformat_less_sqlite_timestamp date_text_less_iff)

lemma uptime_percentage_bounds:
  "0 \<le> uptime_percentage (snapshot db now u r) \<and> uptime_percentage (snapshot db now u r) \<le> 100"
proof -
  have "0 \<le> uptime_of (successful_checks db now (urls_id r)) (total_checks db now (urls_id r)) \<and>
        uptime_of (successful_checks db now (urls_id r)) (total_checks db now (urls_id r)) \<le> 100"
    using successful_le_total by (rule uptime_of_bounds)
  then show ?thesis using py_round2_bounds by (simp add: snapshot_def)
qed

lemma uptime_percentage_empty_window:
  "window_rows db now (urls_id r) = [] \<Longrightarrow> uptime_percentage (snapshot db now u r) = 0"
  by (simp add: snapshot_def total_checks_def successful_checks_def uptime_of_def)

lemma uptime_percentage_ratio:
  "window_rows db now (urls_id r) \<noteq> [] \<Longrightarrow>
   uptime_percentage (snapshot db now u r) =
     py_round2 (100 * of_nat (successful_checks db now (urls_id r))
                / of_nat (total_checks db now (urls_id r)))"
  by (simp add: snapshot_def total_checks_def uptime_of_def mult.commute)

text \<open>
  Claim C2, evaluated. At half past midnight the three checks are 25 hours, 2 hours and
  1 hour old, so the trailing 24 hours hold the last two. The parameter of the query is
  \<open>2024-01-01T00:30:00.500000\<close>; the stored texts of the last two checks begin with the same
  date followed by a space, which sorts before \<open>T\<close>, and the query selects no row at all.
\<close>

theorem window_query_misses_recent_records:
  "map (\<lambda>c. seconds_of example_now - seconds_of (parse_timestamp (timestamp c))) example_checks
     = [90000, 7200, 3600] \<and>
   spec_window_rows example_history example_now 1 = drop 1 example_checks \<and>
   isoformat (minus_one_day example_now) = ''2024-01-01T00:30:00.500000'' \<and>
   window_rows example_history example_now 1 = []"
  by (simp add: example_spec_window_rows example_window_rows example_yesterday)
     (simp add: example_checks_def example_seconds)

text \<open>
  Claim C1, evaluated on the same history. The snapshot reports 0 percent (with a last
  check one hour old), while the ratio over the checks of the last 24 hours, one success
  out of two, is 50.
\<close>

theorem uptime_not_ratio_over_last_day:
  "get_url_status example_history example_now ''https://example.com/'' (Some 1) =
     Some \<lparr>status_url = ''https://example.com/'', uptime_percentage = 0,
           last_checked = Some ''2024-01-01 23:30:00'', status_category = None\<rparr> \<and>
   spec_uptime_percentage example_history example_now 1 = 50"
  by (simp add: example_status example_spec_uptime)

section \<open>Probes and passes\<close>

lemma record_check_simps [simp]:
  "checks (db_manager (record_check w m u code st)) =
     checks (db_manager m) @
       [\<lparr> checks_id = next_checks_id (checks (db_manager m)), url_id = urls_id u,
          timestamp = sqlite_timestamp (utc_now w), response_code = code, status = st,
          response_time_ms = elapsed_ms w (url u) \<rparr>]"
  "urls (db_manager (record_check w m u code st)) = urls (db_manager m)"
  "users (db_manager (record_check w m u code st)) = users (db_manager m)"
  "session (record_check w m u code st) = session m"
  "running (record_check w m u code st) = running m"
  "notification_service (record_check w m u code st) = notification_service m"
  "requests (record_check w m u code st) = requests m"
  "outbox (record_check w m u code st) = outbox m"
  "events (record_check w m u code st) = events m"
  by (simp_all add: record_check_def add_check_result_def)

lemma check_single_url_cases:
  "check_single_url w m u =
     (case probe_rows w (session m) u of
        [] \<Rightarrow> Inl (OperationalError, m\<lparr>requests := requests m @ [(url u, session m)]\<rparr>)
      | (i, code, st) # rest \<Rightarrow>
          Inr (record_check w (m\<lparr>requests := requests m @ [(url u, session m)]\<rparr>) u code st))"
  by (simp add: check_single_url_def probe_rows_def write_check_def Let_def
      split: http_outcome.split py_exception.split)

lemma probe_rows_shape:
  "probe_rows w s u = [] \<or> (\<exists>code st. probe_rows w s u = [(urls_id u, code, st)])"
  by (simp add: probe_rows_def split: http_outcome.split)

lemma check_single_url_effect:
  "\<exists>rows. checks (db_manager (state_of (check_single_url w m u))) = checks (db_manager m) @ rows \<and>
     map row_triple rows = probe_rows w (session m) u \<and>
     raised (check_single_url w m u) = (if rows = [] then Some OperationalError else None) \<and>
     urls (db_manager (state_of (check_single_url w m u))) = urls (db_manager m) \<and>
     users (db_manager (state_of (check_single_url w m u))) = users (db_manager m) \<and>
     session (state_of (check_single_url w m u)) = session m \<and>
     running (state_of (check_single_url w m u)) = running m \<and>
     notification_service (state_of (check_single_url w m u)) = notification_service m \<and>
     outbox (state_of (check_single_url w m u)) = outbox m \<and>
     events (state_of (check_single_url w m u)) = events m \<and>
     requests (state_of (check_single_url w m u)) = requests m @ [(url u, session m)]"
proof -
  from probe_rows_shape [of w "session m" u]
  consider "probe_rows w (session m) u = []"
    | code st where "probe_rows w (session m) u = [(urls_id u, code, st)]"
    by blast
  then show ?thesis
  proof cases
    case 1
    then show ?thesis by (simp add: check_single_url_cases state_of_def raised_def)
  next
    case 2
    then show ?thesis
      by (simp add: check_single_url_cases state_of_def raised_def row_triple_def)
  qed
qed


lemma example_running_simps:
  "session example_running = Some \<lparr>kind = Shared, closed = False\<rparr>"
  "db_manager example_running = example_db"
  "requests example_running = []"
  "events example_running = []"
  by (simp_all add: example_running_def enter_running_def example_monitor_def)

lemma example_busy_simps:
  "http_get example_busy_world ''https://example.com/'' = Response 200"
  "http_get example_busy_world ''https://down.test/'' = Raises TimeoutError"
  "first_write_fails example_busy_world u = True"
  "second_write_fails example_busy_world u = False"
  "listing_fails example_busy_world = False"
  by (simp_all add: example_busy_world_def example_world_def)

lemma example_busy_rows:
  "probe_rows example_busy_world (Some \<lparr>kind = Shared, closed = False\<rparr>) (hd example_urls)
     = [(1, 0, ''error'')]"
  "probe_rows example_busy_world (Some \<lparr>kind = Shared, closed = False\<rparr>) (hd (tl example_urls))
     = []"
  by (simp_all add: probe_rows_def session_get_def example_busy_simps example_urls_def)


lemma run_tasks_effect:
  "\<exists>m' rs rows. run_tasks w m us = (m', rs) \<and>
      checks (db_manager m') = checks (db_manager m) @ rows \<and>
      map row_triple rows = concat (map (probe_rows w (session m)) us) \<and>
      urls (db_manager m') = urls (db_manager m) \<and>
      users (db_manager m') = users (db_manager m) \<and>
      session m' = session m \<and> running m' = running m \<and>
      notification_service m' = notification_service m \<and>
      outbox m' = outbox m \<and> events m' = events m"
proof (induction us arbitrary: m)
  case Nil
  show ?case by simp
next
  case (Cons u us)
  let ?m1 = "state_of (check_single_url w m u)"
  from check_single_url_effect [of w m u] obtain row1 where
    c1: "checks (db_manager ?m1) = checks (db_manager m) @ row1"
        "map row_triple row1 = probe_rows w (session m) u"
    and k1: "urls (db_manager ?m1) = urls (db_manager m)"
       "users (db_manager ?m1) = users (db_manager m)"
       "session ?m1 = session m" "running ?m1 = running m"
       "notification_service ?m1 = notification_service m" "outbox ?m1 = outbox m"
       "events ?m1 = events m"
    by blast
  from Cons.IH [of ?m1] obtain m' rs rows where
    r: "run_tasks w ?m1 us = (m', rs)"
    "checks (db_manager m') = checks (db_manager ?m1) @ rows"
    "map row_triple rows = concat (map (probe_rows w (session ?m1)) us)"
    "urls (db_manager m') = urls (db_manager ?m1)"
    "users (db_manager m') = users (db_manager ?m1)"
    "session m' = session ?m1" "running m' = running ?m1"
    "notification_service m' = notification_service ?m1"
    "outbox m' = outbox ?m1" "events m' = events ?m1"
    by blast
  have "\<exists>rs'. run_tasks w m (u # us) = (m', rs')"
    using r(1) by (cases "check_single_url w m u") (auto simp: state_of_def)
  then obtain rs' where t: "run_tasks w m (u # us) = (m', rs')" by blast
  have "checks (db_manager m') = checks (db_manager m) @ (row1 @ rows)"
    using r(2) c1(1) by simp
  moreover have "map row_triple (row1 @ rows) = concat (map (probe_rows w (session m)) (u # us))"
    using r(3) c1(2) k1(3) by simp
  ultimately show ?case using t r k1 by (intro exI conjI) (assumption | simp)+
qed


lemma check_all_urls_effect:
  assumes "\<not> listing_fails w"
  shows "\<exists>m' rows. check_all_urls w m = Inr m' \<and>
      checks (db_manager m') = checks (db_manager m) @ rows \<and>
      map row_triple rows = concat (map (probe_rows w (session m)) (urls (db_manager m))) \<and>
      urls (db_manager m') = urls (db_manager m) \<and>
      users (db_manager m') = users (db_manager m) \<and>
      session m' = session m \<and> running m' = running m \<and>
      notification_service m' = notification_service m \<and>
      outbox m' = outbox m \<and> events m' = events m @ [Pass]"
proof (cases "urls (db_manager m) = []")
  case True
  then show ?thesis using assms by (simp add: check_all_urls_def get_all_urls_def)
next
  case False
  let ?m0 = "m\<lparr>events := events m @ [Pass]\<rparr>"
  from run_tasks_effect [of w ?m0 "urls (db_manager m)"] obtain m' rs rows where
    r: "run_tasks w ?m0 (urls (db_manager m)) = (m', rs)"
    "checks (db_manager m') = checks (db_manager ?m0) @ rows"
    "map row_triple rows = concat (map (probe_rows w (session ?m0)) (urls (db_manager m)))"
    "urls (db_manager m') = urls (db_manager ?m0)"
    "users (db_manager m') = users (db_manager ?m0)"
    "session m' = session ?m0" "running m' = running ?m0"
    "notification_service m' = notification_service ?m0"
    "outbox m' = outbox ?m0" "events m' = events ?m0"
    by blast
  have "check_all_urls w m = Inr m'"
    using False assms r(1) by (simp add: check_all_urls_def get_all_urls_def gather_def Let_def)
  then show ?thesis using r by simp
qed

lemma gather_without_flag_raises:
  "gather False (m, [None, Some e]) = Inl (e, m)"
  by (simp add: gather_def List.map_filter_simps)

lemma count_own_rows:
  assumes "distinct (map urls_id us)" "u \<in> set us"
  shows "length [x \<leftarrow> map fst (concat (map (probe_rows w s) us)). x = urls_id u]
         = length (probe_rows w s u)"
  using assms
proof (induction us)
  case Nil
  then show ?case by simp
next
  case (Cons a us)
  have own: "[x \<leftarrow> map fst (probe_rows w s v). x = urls_id v] = map fst (probe_rows w s v)" for v
    using probe_rows_shape [of w s v] by auto
  have other: "[x \<leftarrow> map fst (probe_rows w s v). x = i] = []" if "urls_id v \<noteq> i" for v i
    using probe_rows_shape [of w s v] that by auto
  show ?case
  proof (cases "a = u")
    case True
    have "urls_id u \<notin> urls_id ` set us" using Cons.prems(1) True by simp
    then have "\<forall>v \<in> set us. urls_id v \<noteq> urls_id u" by (metis image_eqI)
    then have "[x \<leftarrow> map fst (concat (map (probe_rows w s) us)). x = urls_id u] = []"
      by (induction us) (simp_all add: other)
    then show ?thesis using True own [of u] by simp
  next
    case False
    then have u: "u \<in> set us" using Cons.prems(2) by simp
    then have "urls_id a \<noteq> urls_id u" using Cons.prems(1) by (metis distinct.simps(2) image_eqI list.simps(9) set_map)
    then show ?thesis using Cons u other [of a "urls_id u"] by simp
  qed
qed

text \<open>
  Claim C5, as the code has it. When the listing of the targets is delivered, the pass
  returns normally whichever probes fail and whichever writes the store refuses; it
  appends, target by target, the rows of the single probes; and, the ids of \<open>urls\<close> being
  distinct, a target has exactly one new row if the store accepted a write for it and
  none if it refused them.
\<close>

theorem pass_records_each_target_once:
  assumes "\<not> listing_fails w"
  shows "\<exists>m' rows. check_all_urls w m = Inr m' \<and>
     checks (db_manager m') = checks (db_manager m) @ rows \<and>
     map row_triple rows = concat (map (probe_rows w (session m)) (urls (db_manager m))) \<and>
     (distinct (map urls_id (urls (db_manager m))) \<longrightarrow>
        (\<forall>u \<in> set (urls (db_manager m)).
           length [c \<leftarrow> checks (db_manager m'). url_id c = urls_id u]
             = length [c \<leftarrow> checks (db_manager m). url_id c = urls_id u]
               + (if probe_rows w (session m) u = [] then 0 else 1)))"
proof -
  from check_all_urls_effect [OF assms, of m] obtain m' rows where
    r: "check_all_urls w m = Inr m'"
       "checks (db_manager m') = checks (db_manager m) @ rows"
       "map row_triple rows = concat (map (probe_rows w (session m)) (urls (db_manager m)))"
    by blast
  have one: "length [c \<leftarrow> rows. url_id c = urls_id u]
             = (if probe_rows w (session m) u = [] then 0 else 1)"
    if d: "distinct (map urls_id (urls (db_manager m)))" and u: "u \<in> set (urls (db_manager m))" for u
  proof -
    have e: "map url_id rows = map fst (map row_triple rows)"
      by (simp add: row_triple_def comp_def)
    have "length [c \<leftarrow> rows. url_id c = urls_id u]
        = length [x \<leftarrow> map url_id rows. x = urls_id u]"
      by (simp add: filter_map comp_def)
    also have "\<dots> = length [x \<leftarrow> map fst (map row_triple rows). x = urls_id u]"
      by (simp only: e)
    also have "\<dots> = length (probe_rows w (session m) u)"
      unfolding r(3) using d u by (rule count_own_rows)
    also have "\<dots> = (if probe_rows w (session m) u = [] then 0 else 1)"
      using probe_rows_shape [of w "session m" u] by auto
    finally show ?thesis .
  qed
  have "distinct (map urls_id (urls (db_manager m))) \<longrightarrow>
        (\<forall>u \<in> set (urls (db_manager m)).
           length [c \<leftarrow> checks (db_manager m'). url_id c = urls_id u]
             = length [c \<leftarrow> checks (db_manager m). url_id c = urls_id u]
               + (if probe_rows w (session m) u = [] then 0 else 1))"
    using one by (simp add: r(2))
  then show ?thesis using r by blast
qed

theorem pass_records_each_target_once_witness:
  "\<not> listing_fails example_world \<and>
   distinct (map urls_id (urls (db_manager example_running))) \<and>
   (\<exists>m' rows. check_all_urls example_world example_running = Inr m' \<and>
      checks (db_manager m') = checks (db_manager example_running) @ rows \<and>
      map row_triple rows = [(1, 200, ''success''), (2, 0, ''error'')] \<and>
      (\<forall>u \<in> set (urls (db_manager example_running)).
         length [c \<leftarrow> checks (db_manager m'). url_id c = urls_id u]
           = length [c \<leftarrow> checks (db_manager example_running). url_id c = urls_id u] + 1))"
proof -
  have l: "\<not> listing_fails example_world" by (simp add: example_world_def)
  have d: "distinct (map urls_id (urls (db_manager example_running)))"
    by (simp add: example_running_simps example_db_def example_urls_def)
  have p: "map (probe_rows example_world (session example_running)) (urls (db_manager example_running))
           = [[(1, 200, ''success'')], [(2, 0, ''error'')]]"
    by (simp add: example_running_simps example_db_def example_urls_def probe_rows_def
        session_get_def example_world_def)
  then have q: "\<forall>u \<in> set (urls (db_manager example_running)).
           probe_rows example_world (session example_running) u \<noteq> []"
    by (simp add: example_running_simps example_db_def example_urls_def)
  from pass_records_each_target_once [OF l, of example_running] d p q l
  show ?thesis by auto
qed

text \<open>
  Claim C5 as stated fails when the store is busy at the first write of every probe: the
  pass over the two targets returns normally, and only the first target has a new row.
  The second target timed out, and the write of its handler was refused.
\<close>

theorem busy_store_leaves_target_without_row:
  "map urls_id (urls (db_manager example_running)) = [1, 2] \<and>
   map_sum fst (map url_id \<circ> checks \<circ> db_manager)
     (check_all_urls example_busy_world example_running)
   = Inr [1]"
proof -
  have l: "\<not> listing_fails example_busy_world" by (simp add: example_busy_simps)
  have u: "urls (db_manager example_running) = [hd example_urls, hd (tl example_urls)]"
    by (simp add: example_running_simps example_db_def example_urls_def)
  from check_all_urls_effect [OF l, of example_running] obtain m' rows where
    r: "check_all_urls example_busy_world example_running = Inr m'"
       "checks (db_manager m') = checks (db_manager example_running) @ rows"
       "map row_triple rows =
          concat (map (probe_rows example_busy_world (session example_running))
                      (urls (db_manager example_running)))"
    by blast
  have "map row_triple rows = [(1, 0, ''error'')]"
    unfolding r(3) u by (simp add: example_running_simps example_busy_rows)
  then have "map fst (map row_triple rows) = [1]" by simp
  then have i: "map url_id rows = [1]" by (simp add: row_triple_def comp_def)
  have c: "checks (db_manager m') = rows"
    using r(2) by (simp add: example_running_simps example_db_def)
  have "map urls_id (urls (db_manager example_running)) = [1, 2]"
    by (simp add: example_running_simps example_db_def example_urls_def)
  then show ?thesis using r(1) c i by simp
qed



lemma check_single_url_requests:
  "requests (state_of (check_single_url w m r)) = requests m @ [(url r, session m)]"
  using check_single_url_effect [of w m r] by blast

lemma immediate_probe_session:
  assumes "find (\<lambda>r. url r = u) (urls (db_manager m)) = Some r"
  shows "requests (state_of (check_single_url_immediately w m u)) = requests m @
        [(u, if session m = None then Some \<lparr>kind = Temporary, closed = False\<rparr> else session m)]"
proof -
  have u: "url r = u" using assms by (auto simp: find_Some_iff)
  show ?thesis
  proof (cases "session m = None")
    case False
    then show ?thesis
      using assms u
      by (auto simp: check_single_url_immediately_def get_all_urls_def
          check_single_url_requests)
  next
    case True
    let ?m = "m\<lparr>session := Some \<lparr>kind = Temporary, closed = False\<rparr>\<rparr>"
    have "requests (state_of (check_single_url w ?m r)) = requests m @
        [(u, Some \<lparr>kind = Temporary, closed = False\<rparr>)]"
      using u by (simp add: check_single_url_requests)
    then show ?thesis
      using assms True
      by (cases "check_single_url w ?m r")
         (auto simp: check_single_url_immediately_def get_all_urls_def state_of_def)
  qed
qed

lemma example_stopped_simps:
  "running example_stopped = False"
  "session example_stopped = Some \<lparr>kind = Shared, closed = True\<rparr>"
  "requests example_stopped = []"
  "db_manager example_stopped = example_db"
  by (simp_all add: example_stopped_def stop_monitoring_def enter_running_def example_monitor_def)

text \<open>
  Claim C7, evaluated after \<open>stop_monitoring\<close>. The scheduler is not running, yet the
  attribute still holds the shared session, now closed: the request goes over it, raises,
  and a target that answers 200 is recorded as an error with code 0.
\<close>

theorem immediate_probe_after_stop:
  "running example_stopped = False \<and>
   http_get example_world ''https://example.com/'' = Response 200 \<and>
   (case check_single_url_immediately example_world example_stopped ''https://example.com/'' of
      Inl e \<Rightarrow> False
    | Inr m' \<Rightarrow>
        requests m' = [(''https://example.com/'', Some \<lparr>kind = Shared, closed = True\<rparr>)] \<and>
        map (\<lambda>c. (url_id c, response_code c, status c)) (checks (db_manager m'))
          = [(1, 0, ''error'')])"
proof -
  have f: "find (\<lambda>r. url r = ''https://example.com/'') (get_all_urls example_db)
           = Some (hd example_urls)"
    by (simp add: get_all_urls_def example_db_def example_urls_def)
  have r: "urls_id (hd example_urls) = 1" "url (hd example_urls) = ''https://example.com/''"
    by (simp_all add: example_urls_def)
  have p: "probe_rows example_world (Some \<lparr>kind = Shared, closed = True\<rparr>) (hd example_urls)
           = [(1, 0, ''error'')]"
    by (simp add: probe_rows_def session_get_def r) (simp add: example_world_def)
  have e: "check_single_url_immediately example_world example_stopped ''https://example.com/''
        = Inr (record_check example_world
                 (example_stopped\<lparr>requests :=
                    [(''https://example.com/'', Some \<lparr>kind = Shared, closed = True\<rparr>)]\<rparr>)
                 (hd example_urls) 0 ''error'')"
    by (simp add: check_single_url_immediately_def f example_stopped_simps
        check_single_url_cases p r)
  have w: "http_get example_world ''https://example.com/'' = Response 200"
    by (simp add: example_world_def)
  show ?thesis
    unfolding e by (simp add: w r example_stopped_simps example_db_def)
qed

section \<open>Notifications and the scheduler\<close>













section \<open>The degraded count of a summary\<close>

lemma summary_loop_down:
  "snd (summary_loop db now uid us (s, n)) =
     n + length [r \<leftarrow> us. \<exists>st. get_url_status db now (url r) (Some uid) = Some st \<and>
                              uptime_percentage st < 99]"
proof (induction us arbitrary: s n)
  case Nil
  show ?case by simp
next
  case (Cons r us)
  show ?case
  proof (cases "get_url_status db now (url r) (Some uid)")
    case None
    then show ?thesis using Cons.IH [of s n] by simp
  next
    case (Some st)
    then show ?thesis
      using Cons.IH [of "s @ [st]" "if uptime_percentage st < 99 then n + 1 else n"] by simp
  qed
qed

lemma filter_unique_key:
  "distinct (map f xs) \<Longrightarrow> r \<in> set xs \<Longrightarrow> [x \<leftarrow> xs. f x = f r] = [r]"
proof (induction xs)
  case Nil
  then show ?case by simp
next
  case (Cons a xs)
  show ?case
  proof (cases "a = r")
    case True
    then have "f r \<notin> f ` set xs" using Cons.prems(1) by simp
    then have "[x \<leftarrow> xs. f x = f r] = []" by (simp add: filter_empty_conv image_iff) metis
    then show ?thesis using True by simp
  next
    case False
    then have r: "r \<in> set xs" using Cons.prems(2) by simp
    then have "f a \<noteq> f r" using Cons.prems(1) by (metis distinct.simps(2) image_eqI list.simps(9) set_map)
    then show ?thesis using Cons r by simp
  qed
qed

lemma select_url_owned:
  assumes "uid \<noteq> 0" "distinct (map (\<lambda>r. (url r, user_id r)) (urls db))"
    "r \<in> set (urls db)" "user_id r = uid"
  shows "select_url db (url r) (Some uid) = Some r"
proof -
  have "[x \<leftarrow> urls db. url x = url r \<and> Some (user_id x) = Some uid]
        = [x \<leftarrow> urls db. (url x, user_id x) = (url r, user_id r)]"
    using assms(4) by simp
  also have "\<dots> = [r]" using assms(2,3) by (rule filter_unique_key)
  finally show ?thesis using assms(1) by (simp add: select_url_def truthy_int_def fetchone_def)
qed

lemma length_filter_get_user_urls:
  "length (filter P (get_user_urls db uid)) = length [r \<leftarrow> urls db. user_id r = uid \<and> P r]"
proof -
  have "filter P (get_user_urls db uid)
        = rev (sort_key created_at [r \<leftarrow> urls db. user_id r = uid \<and> P r])"
    by (simp add: get_user_urls_def rev_filter [symmetric] filter_sort conj_commute)
  then show ?thesis by simp
qed

lemma set_get_user_urls: "set (get_user_urls db uid) = {r \<in> set (urls db). user_id r = uid}"
  by (simp add: get_user_urls_def)

lemma down_sites_count:
  assumes "uid \<noteq> 0" "distinct (map (\<lambda>r. (url r, user_id r)) (urls db))"
  shows "snd (summary_loop db now uid (get_user_urls db uid) ([], 0)) =
     length [r \<leftarrow> urls db. user_id r = uid \<and> uptime_percentage (snapshot db now (url r) r) < 99]"
proof -
  have own: "get_url_status db now (url r) (Some uid) = Some (snapshot db now (url r) r)"
    if "r \<in> set (get_user_urls db uid)" for r
    using that select_url_owned [OF assms, of r]
    by (simp add: set_get_user_urls get_url_status_def)
  have "[r \<leftarrow> get_user_urls db uid. \<exists>st. get_url_status db now (url r) (Some uid) = Some st \<and>
                              uptime_percentage st < 99]
        = [r \<leftarrow> get_user_urls db uid. uptime_percentage (snapshot db now (url r) r) < 99]"
    by (rule filter_cong) (simp_all add: own)
  then show ?thesis
    by (simp add: summary_loop_down length_filter_get_user_urls)
qed

lemma send_user_uptime_summary_True:
  assumes "send_user_uptime_summary w ns db box uid a = Inr (True, box')"
  shows "box' = box @
           [\<lparr> recipient = a,
              mail_username = (case get_user_info db uid of None \<Rightarrow> ''User'' | Some p \<Rightarrow> username p),
              summary_data = fst (summary_loop db (local_now w) uid (get_user_urls db uid) ([], 0)),
              total_sites = length (get_user_urls db uid),
              down_sites = snd (summary_loop db (local_now w) uid (get_user_urls db uid) ([], 0)) \<rparr>]"
  using assms
  by (auto simp: send_user_uptime_summary_def summary_body_def send_email_def Let_def
      split: if_splits sum.splits prod.splits smtp_outcome.splits)

lemma send_user_uptime_summary_delivers:
  assumes "email_enabled ns" "\<not> summary_raises w uid" "get_user_urls db uid \<noteq> []"
    "smtp w a = Delivered"
  shows "\<exists>box'. send_user_uptime_summary w ns db box uid a = Inr (True, box')"
  using assms
  by (simp add: send_user_uptime_summary_def summary_body_def send_email_def Let_def
      split: prod.splits)

text \<open>
  Claim C8. With user ids that are not 0 and \<open>UNIQUE(url, user_id)\<close> on \<open>urls\<close>, the mail
  of a delivered summary carries as \<open>down_sites\<close> the number of the user's targets whose
  snapshot has an uptime percentage below 99.
\<close>

theorem degraded_count_in_summary:
  assumes "uid \<noteq> 0" "distinct (map (\<lambda>r. (url r, user_id r)) (urls db))"
    and "send_user_uptime_summary w ns db box uid a = Inr (True, box')"
  shows "\<exists>mail. box' = box @ [mail] \<and> recipient mail = a \<and>
      down_sites mail =
        length [r \<leftarrow> urls db. user_id r = uid \<and>
                  uptime_percentage (snapshot db (local_now w) (url r) r) < 99]"
  using send_user_uptime_summary_True [OF assms(3)] down_sites_count [OF assms(1,2)]
  by simp

theorem degraded_count_in_summary_witness:
  "(1::int) \<noteq> 0 \<and> distinct (map (\<lambda>r. (url r, user_id r)) (urls example_history)) \<and>
   (\<exists>box'. send_user_uptime_summary example_world \<lparr>email_enabled = True\<rparr> example_history []
              1 ''ann@example.com'' = Inr (True, box') \<and>
      (\<exists>mail. box' = [] @ [mail] \<and> recipient mail = ''ann@example.com'' \<and>
         down_sites mail =
           length [r \<leftarrow> urls example_history. user_id r = 1 \<and>
              uptime_percentage (snapshot example_history (local_now example_world) (url r) r) < 99]))"
proof -
  have d: "distinct (map (\<lambda>r. (url r, user_id r)) (urls example_history))"
    by (simp add: example_history_def example_defs)
  have u: "get_user_urls example_history 1 \<noteq> []"
    by (simp add: get_user_urls_def example_history_def example_defs)
  obtain box' where b: "send_user_uptime_summary example_world \<lparr>email_enabled = True\<rparr>
        example_history [] 1 ''ann@example.com'' = Inr (True, box')"
    using send_user_uptime_summary_delivers [of "\<lparr>email_enabled = True\<rparr>" example_world 1
        example_history "''ann@example.com''" "[]"] u
    by (auto simp: example_world_def)
  have n: "(1::int) \<noteq> 0" by simp
  from degraded_count_in_summary [OF n d b] b d n show ?thesis by blast
qed

end
